theory Spec2Isabelle
  imports Complex_Main "HOL-Library.Sublist"
begin

section \<open>Python values\<close>

text \<open>
  A Python \<^verbatim>\<open>str\<close> is a sequence of Unicode code points; a code point is a natural
  number. \<open>ascii\<close> writes an ASCII literal; the Danish letters are given by number
  (\<open>230\<close> for ae-ligature, \<open>248\<close> for o-slash, \<open>229\<close> for a-ring).
\<close>

type_synonym pystr = "nat list"

abbreviation ascii :: "string \<Rightarrow> pystr" where
  "ascii s \<equiv> map of_char s"

text \<open>
  \<^verbatim>\<open>str.strip()\<close> without argument removes leading and trailing white space; the set
  is the one of CPython's \<^verbatim>\<open>str.isspace\<close>.
\<close>

definition isspace :: "nat \<Rightarrow> bool" where
  "isspace c \<longleftrightarrow>
     c \<in> {9, 10, 11, 12, 13, 28, 29, 30, 31, 32, 133, 160, 5760,
          8232, 8233, 8239, 8287, 12288} \<or> (8192 \<le> c \<and> c \<le> 8202)"

definition strip :: "pystr \<Rightarrow> pystr" where
  "strip s = rev (dropWhile isspace (rev (dropWhile isspace s)))"

text \<open>
  \<^verbatim>\<open>str.lower()\<close> follows the Unicode case tables, which are not part of the
  repository: every function below that lowers a string takes the lowering function
  \<open>lw\<close> as its first argument, and the general theorems hold for every such function.
  \<open>lower_latin1\<close> is \<^verbatim>\<open>str.lower()\<close> on strings whose code points are all below 256
  (ASCII and Latin-1 capitals move up by 32, the multiplication sign 215 stays); the
  concrete evaluations use it on such strings only.
\<close>

definition lower_cp :: "nat \<Rightarrow> nat" where
  "lower_cp c =
     (if 65 \<le> c \<and> c \<le> 90 then c + 32
      else if 192 \<le> c \<and> c \<le> 222 then (if c = 215 then c else c + 32)
      else c)"

definition lower_latin1 :: "pystr \<Rightarrow> pystr" where
  "lower_latin1 s = map lower_cp s"

text \<open>
  \<^verbatim>\<open>s.replace(old, new)\<close>: the occurrences of \<open>old\<close> are replaced from the left,
  without overlap; an empty \<open>old\<close> matches before every character and at the end.
\<close>

function replace :: "pystr \<Rightarrow> pystr \<Rightarrow> pystr \<Rightarrow> pystr" where
  "replace old new [] = (if old = [] then new else [])"
| "replace old new (c # cs) =
     (if old = [] then new @ c # replace old new cs
      else if prefix old (c # cs)
        then new @ replace old new (drop (length old) (c # cs))
        else c # replace old new cs)"
  by pat_completeness auto
termination
  by (relation "measure (\<lambda>(old, new, s). length s)") auto

declare replace.simps(2) [simp del]

text \<open>Decimal rendering of an integer, as \<^verbatim>\<open>str(n)\<close> and an f-string do it.\<close>

function str_nat :: "nat \<Rightarrow> pystr" where
  "str_nat n = (if n < 10 then [48 + n] else str_nat (n div 10) @ [48 + n mod 10])"
  by pat_completeness auto
termination
  by (relation "measure (\<lambda>n. n)") auto

declare str_nat.simps [simp del]

definition str_int :: "int \<Rightarrow> pystr" where
  "str_int i = (if i < 0 then 45 # str_nat (nat (- i)) else str_nat (nat i))"

text \<open>
  The values found in a table cell or passed as an optional argument.
  \<open>PyNone\<close> is \<^verbatim>\<open>None\<close>, \<open>NaN\<close> the missing-value marker of pandas, \<open>Str\<close> a string,
  \<open>Num\<close> an integer. A \<^verbatim>\<open>Timestamp\<close> is represented by the two things the code
  observes of it: the result of \<^verbatim>\<open>strftime("%Y-%m-%d")\<close> (\<open>None\<close> when it raises
  \<^verbatim>\<open>ValueError\<close>) and \<^verbatim>\<open>str(value)\<close>. Floating-point cells other than the
  missing-value marker are not modelled.
\<close>

datatype cell =
    PyNone
  | NaN
  | Str pystr
  | Num int
  | Timestamp "pystr option" pystr

fun py_str :: "cell \<Rightarrow> pystr" where
  "py_str PyNone = ascii ''None''"
| "py_str NaN = ascii ''nan''"
| "py_str (Str s) = s"
| "py_str (Num i) = str_int i"
| "py_str (Timestamp f s) = s"

fun truthy :: "cell \<Rightarrow> bool" where
  "truthy PyNone = False"
| "truthy NaN = True"
| "truthy (Str s) = (s \<noteq> [])"
| "truthy (Num i) = (i \<noteq> 0)"
| "truthy (Timestamp f s) = True"

fun of_optional :: "pystr option \<Rightarrow> cell" where
  "of_optional None = PyNone"
| "of_optional (Some s) = Str s"

section \<open>The normalizer (\<^verbatim>\<open>basin_match_logic._normalize\<close>)\<close>

definition normalize_text :: "(pystr \<Rightarrow> pystr) \<Rightarrow> cell \<Rightarrow> pystr" where
  "normalize_text lw text =
     (if \<not> truthy text then []
      else replace [229] (ascii ''aa'')
             (replace [248] (ascii ''oe'')
               (replace [230] (ascii ''ae'') (strip (lw (py_str text))))))"

section \<open>Regular expressions and \<^verbatim>\<open>Series.str.contains\<close>\<close>

text \<open>
  \<^verbatim>\<open>Series.str.contains(pat, na=False)\<close> is called with its default \<^verbatim>\<open>regex=True\<close>: pandas
  compiles \<open>pat\<close> with \<^verbatim>\<open>re.compile\<close> and keeps the elements in which \<^verbatim>\<open>search\<close>
  finds a match (the elements are Python strings, as in a column of \<^verbatim>\<open>dtype=str\<close> or
  after \<^verbatim>\<open>astype(str)\<close>). Python's \<^verbatim>\<open>re\<close> module is modelled on a fragment of its syntax:

  \<^item> a pattern of ordinary characters, dots, carets and dollars: an ordinary character
    matches itself, a dot matches every character but the line feed, a caret matches
    (without consuming a character) at the start of the string only, a dollar at the
    end of the string or before a line feed that ends the string;
  \<^item> such a pattern with opening parentheses in it, and no closing one: the group is not
    terminated and \<^verbatim>\<open>re.compile\<close> raises \<^verbatim>\<open>re.error\<close>;
  \<^item> any other pattern (one with a backslash, a bracket, a brace, a closing parenthesis,
    a repetition or a bar) is \<open>Beyond\<close> the fragment, and the functions that meet it
    report \<open>Unmodelled\<close> instead of a result.

  The theorems below that hold for some queries only say so in their hypotheses:
  \<open>plain\<close> is the property of a string to have no special character at all, and a
  plain pattern is in the fragment.
\<close>

definition special :: "nat \<Rightarrow> bool" where
  "special c \<longleftrightarrow> c \<in> {46, 92, 91, 123, 40, 41, 42, 43, 63, 94, 36, 124}"

definition plain :: "pystr \<Rightarrow> bool" where
  "plain s = list_all (\<lambda>c. if special c then False else True) s"

datatype atom = Lit nat | AnyChar | Bol | Eol

datatype compiled = PatternError | Beyond | Pattern "atom list"

definition to_atom :: "nat \<Rightarrow> atom" where
  "to_atom c = (if c = 46 then AnyChar else if c = 94 then Bol else if c = 36 then Eol else Lit c)"

definition re_compile :: "pystr \<Rightarrow> compiled" where
  "re_compile pat =
     (if list_all (\<lambda>c. if special c then c = 46 \<or> c = 94 \<or> c = 36 else True) pat
        then Pattern (map to_atom pat)
      else if list_all (\<lambda>c. if special c then c = 46 \<or> c = 94 \<or> c = 36 \<or> c = 40
                              else True) pat
        then PatternError
      else Beyond)"

text \<open>
  \<open>match_here p s b\<close>: the pattern matches a prefix of \<open>s\<close>, where \<open>b\<close> tells whether
  \<open>s\<close> is the whole string (no character has been passed). \<open>search_from\<close> tries every
  start, from the left; \<open>re_search\<close> is \<^verbatim>\<open>search(s) is not None\<close>.
\<close>

fun match_here :: "atom list \<Rightarrow> pystr \<Rightarrow> bool \<Rightarrow> bool" where
  "match_here [] s b = True"
| "match_here (Bol # as) s b = (b \<and> match_here as s b)"
| "match_here (Eol # as) s b = ((s = [] \<or> s = [10]) \<and> match_here as s b)"
| "match_here (Lit a # as) [] b = False"
| "match_here (AnyChar # as) [] b = False"
| "match_here (Lit a # as) (c # s) b = (c = a \<and> match_here as s False)"
| "match_here (AnyChar # as) (c # s) b = (c \<noteq> 10 \<and> match_here as s False)"

fun search_from :: "atom list \<Rightarrow> pystr \<Rightarrow> bool \<Rightarrow> bool" where
  "search_from p [] b = match_here p [] b"
| "search_from p (c # s) b = (match_here p (c # s) b \<or> search_from p s False)"

definition re_search :: "atom list \<Rightarrow> pystr \<Rightarrow> bool" where
  "re_search p s = search_from p s True"

text \<open>
  The exceptions that the modelled code can raise: \<^verbatim>\<open>re.error\<close>, \<^verbatim>\<open>KeyError\<close> with its key,
  \<^verbatim>\<open>ValueError\<close> with its text, \<^verbatim>\<open>FileNotFoundError\<close>, any other exception with its type
  name and text. \<open>Unmodelled\<close> is not an exception of the program: it marks a call whose
  pattern lies beyond the fragment above, or that reads a repeated key column of the
  registry (\<open>key_column\<close>, \<open>key_field\<close>).
\<close>

datatype exn =
    RegexError
  | KeyError pystr
  | ValueError pystr
  | FileNotFoundError
  | OtherError pystr pystr
  | Unmodelled

definition str_contains :: "pystr \<Rightarrow> pystr list \<Rightarrow> exn + bool list" where
  "str_contains pat xs =
     (case re_compile pat of
        PatternError \<Rightarrow> Inl RegexError
      | Beyond \<Rightarrow> Inl Unmodelled
      | Pattern p \<Rightarrow> Inr (map (re_search p) xs))"

section \<open>Tables\<close>

text \<open>
  A data frame has a list of column names and a list of rows; a row gives the cell at
  every column position. \<open>column\<close> is \<^verbatim>\<open>df[name]\<close>, \<open>field\<close> is \<^verbatim>\<open>row[name]\<close>; both
  raise \<^verbatim>\<open>KeyError\<close> for a name that is not a column. A name is looked up at its
  first position (the readers make the names of a file distinct; the names of the
  registry can coincide once they are stripped, and \<open>prepare\<close>, \<open>key_column\<close> and
  \<open>key_field\<close> say what happens then). \<open>select\<close> is \<^verbatim>\<open>df[mask]\<close>, and \<open>mk_row\<close> writes
  a row from the list of its cells.
\<close>

record frame =
  columns :: "pystr list"
  rows :: "(nat \<Rightarrow> cell) list"

fun index_of :: "pystr \<Rightarrow> pystr list \<Rightarrow> nat option" where
  "index_of x [] = None"
| "index_of x (y # ys) = (if x = y then Some 0 else map_option Suc (index_of x ys))"

definition column :: "frame \<Rightarrow> pystr \<Rightarrow> exn + cell list" where
  "column df name =
     (case index_of name (columns df) of
        None \<Rightarrow> Inl (KeyError name)
      | Some i \<Rightarrow> Inr (map (\<lambda>r. r i) (rows df)))"

definition field :: "frame \<Rightarrow> (nat \<Rightarrow> cell) \<Rightarrow> pystr \<Rightarrow> exn + cell" where
  "field df r name =
     (case index_of name (columns df) of
        None \<Rightarrow> Inl (KeyError name)
      | Some i \<Rightarrow> Inr (r i))"

definition select :: "'a list \<Rightarrow> bool list \<Rightarrow> 'a list" where
  "select rs keep = map fst (filter snd (zip rs keep))"

definition mk_row :: "cell list \<Rightarrow> nat \<Rightarrow> cell" where
  "mk_row cs i = (if i < length cs then cs ! i else NaN)"

section \<open>The registry cache (\<^verbatim>\<open>basin_match_logic._load_data\<close>)\<close>

definition CSV_FRAKMT_COL :: pystr where
  "CSV_FRAKMT_COL = ascii ''Frakmt''"

definition CSV_KOMMUNE_COL :: pystr where
  "CSV_KOMMUNE_COL = ascii ''Kommune''"

definition CACHE_DURATION :: real where
  "CACHE_DURATION = 3600"

text \<open>
  The world outside the process: whether the registry file exists, what
  \<^verbatim>\<open>pd.read_csv\<close> gives for it under each encoding (a frame of strings and missing
  values, or an exception), and what the assignment of lines 28 and 42 does in the
  cases that \<open>prepare\<close> leaves to the library (\<open>fill_repeated\<close>). The process state:
  the objects on the heap (a frame per
  address), the two entries of \<^verbatim>\<open>CACHE\<close> (\<open>cache_df\<close> is the address of the cached
  frame), and the trace of the accesses to the file system. Only the frames that stay
  reachable after a call are put on the heap.
\<close>

datatype encoding = Cp1252 | Latin1

datatype event = PathExists | ReadCsv encoding

record world =
  file_exists :: bool
  read_csv :: "encoding \<Rightarrow> exn + frame"
  fill_repeated :: "frame \<Rightarrow> exn + frame"

record state =
  heap :: "frame list"
  cache_df :: "nat option"
  load_time :: real
  trace :: "event list"

definition initial_state :: state where
  "initial_state = \<lparr>heap = [], cache_df = None, load_time = 0, trace = []\<rparr>"

definition log :: "event \<Rightarrow> state \<Rightarrow> state" where
  "log e st = st\<lparr>trace := trace st @ [e]\<rparr>"

definition fillna_cell :: "cell \<Rightarrow> cell" where
  "fillna_cell c = (case c of PyNone \<Rightarrow> Str [] | NaN \<Rightarrow> Str [] | _ \<Rightarrow> c)"

definition fillna_column :: "pystr \<Rightarrow> frame \<Rightarrow> frame" where
  "fillna_column name df =
     (case index_of name (columns df) of
        None \<Rightarrow> df
      | Some i \<Rightarrow> df\<lparr>rows := map (\<lambda>r. r(i := fillna_cell (r i))) (rows df)\<rparr>)"

text \<open>
  Lines 25 to 28 (and 39 to 42): strip the column names, raise \<^verbatim>\<open>ValueError\<close> unless
  both key columns are there, fill the missing cells of the key columns with the
  empty string. The last step is the assignment
  \<^verbatim>\<open>df[[K, F]] = df[[K, F]].fillna('')\<close>, where the selection on the right has every
  column named \<open>K\<close> and then every column named \<open>F\<close>, and pandas assigns to the two
  keys the first two of these columns in turn:

  \<^item> each key name once: the two columns are filled;
  \<^item> \<open>K\<close> repeated, and not as often as \<open>F\<close>: the key \<open>F\<close> receives the columns named
    \<open>K\<close>, their number is not the number of columns named \<open>F\<close>, and pandas raises
    \<^verbatim>\<open>ValueError\<close> (\<^verbatim>\<open>Columns must be same length as key\<close>);
  \<^item> the other cases with a repeated key name: what the assignment does depends on the
    version of pandas and is taken from the world.
\<close>

definition length_message :: pystr where
  "length_message = ascii ''Columns must be same length as key''"

definition prepare :: "(frame \<Rightarrow> exn + frame) \<Rightarrow> pystr \<Rightarrow> frame \<Rightarrow> exn + frame" where
  "prepare library msg raw =
     (let df = raw\<lparr>columns := map strip (columns raw)\<rparr>;
          m = count_list (columns df) CSV_KOMMUNE_COL;
          n = count_list (columns df) CSV_FRAKMT_COL in
      if CSV_KOMMUNE_COL \<in> set (columns df) \<and> CSV_FRAKMT_COL \<in> set (columns df)
        then
          if m = 1 \<and> n = 1
            then Inr (fillna_column CSV_FRAKMT_COL (fillna_column CSV_KOMMUNE_COL df))
          else if 1 < m \<and> m \<noteq> n then Inl (ValueError length_message)
          else library df
        else Inl (ValueError msg))"

definition attempt :: "world \<Rightarrow> encoding \<Rightarrow> pystr \<Rightarrow> exn + frame" where
  "attempt w enc msg =
     (case read_csv w enc of
        Inl e \<Rightarrow> Inl e
      | Inr raw \<Rightarrow> prepare (fill_repeated w) msg raw)"

text \<open>
  Lines 29 to 32 (and 43 to 46): the frame becomes the cached object, the load time is
  recorded, and a copy of the frame (a new object) is returned.
\<close>

definition store_and_copy :: "frame \<Rightarrow> real \<Rightarrow> state \<Rightarrow> nat option \<times> state" where
  "store_and_copy df now st =
     (let a = length (heap st) in
      (Some (Suc a),
       st\<lparr>heap := heap st @ [df, df], cache_df := Some a, load_time := now\<rparr>))"

definition primary_message :: pystr where
  "primary_message =
     ascii ''CSV mangler p'' @ [229] @ ascii ''kr'' @ [230] @ ascii ''vede kolonner: ''
       @ CSV_KOMMUNE_COL @ ascii '' / '' @ CSV_FRAKMT_COL"

definition fallback_message :: pystr where
  "fallback_message = ascii ''Fallback fejlede ogs'' @ [229] @ ascii '': Kolonner mangler.''"

definition reload :: "world \<Rightarrow> real \<Rightarrow> state \<Rightarrow> nat option \<times> state" where
  "reload w now st =
     (let st1 = log PathExists st in
      if \<not> file_exists w then (None, st1)
      else
        let st2 = log (ReadCsv Cp1252) st1 in
        case attempt w Cp1252 primary_message of
          Inr df \<Rightarrow> store_and_copy df now st2
        | Inl e \<Rightarrow>
            let st3 = log (ReadCsv Latin1) st2 in
            (case attempt w Latin1 fallback_message of
               Inr df \<Rightarrow> store_and_copy df now st3
             | Inl e_fallback \<Rightarrow> (None, st3\<lparr>cache_df := None\<rparr>)))"

text \<open>
  \<open>load_data w now st\<close>: \<open>now\<close> is what \<^verbatim>\<open>time.time()\<close> returns at line 14. The result is
  the address of the returned copy, or \<open>None\<close>.
\<close>

definition load_data :: "world \<Rightarrow> real \<Rightarrow> state \<Rightarrow> nat option \<times> state" where
  "load_data w now st =
     (case cache_df st of
        None \<Rightarrow> reload w now st
      | Some c \<Rightarrow>
          if now - load_time st < CACHE_DURATION
            then (Some (length (heap st)), st\<lparr>heap := heap st @ [heap st ! c]\<rparr>)
            else reload w now st)"

text \<open>A state is well formed when the cache refers to an object of the heap.\<close>

definition wf_state :: "state \<Rightarrow> bool" where
  "wf_state st = (case cache_df st of None \<Rightarrow> True | Some c \<Rightarrow> c < length (heap st))"

section \<open>The resolver (\<^verbatim>\<open>basin_match_logic.find_basin_entries_main\<close>)\<close>

datatype outcome =
    NoQuery pystr
  | Error pystr
  | NotFound pystr
  | FoundExact cell cell
  | FoundMultiple nat pystr "(cell \<times> cell) list"

fun status :: "outcome \<Rightarrow> pystr" where
  "status (NoQuery m) = ascii ''no_query''"
| "status (Error m) = ascii ''error''"
| "status (NotFound m) = ascii ''not_found''"
| "status (FoundExact i k) = ascii ''found_exact''"
| "status (FoundMultiple n m ms) = ascii ''found_multiple''"

definition no_query_message :: pystr where
  "no_query_message = ascii ''Angiv kommune eller bassin ID.''"

definition error_message :: pystr where
  "error_message = ascii ''Kunne ikke indl'' @ [230] @ ascii ''se master listen.''"

definition not_found_message :: pystr where
  "not_found_message = ascii ''Ingen bassiner matchede kriterierne.''"

text \<open>
  \<open>key_column\<close> and \<open>key_field\<close> are \<^verbatim>\<open>df[name]\<close> and \<^verbatim>\<open>row[name]\<close> for the key names
  of the registry, which can be repeated in a loaded frame. For a repeated name
  pandas gives a frame in place of a column, and a column in place of a cell; the
  model has no value for them and reports \<open>Unmodelled\<close>. So a result of the search
  in the model is a result on a table that has the key names it read once each.
\<close>

definition key_column :: "frame \<Rightarrow> pystr \<Rightarrow> exn + cell list" where
  "key_column df name =
     (if 1 < count_list (columns df) name then Inl Unmodelled else column df name)"

definition key_field :: "frame \<Rightarrow> (nat \<Rightarrow> cell) \<Rightarrow> pystr \<Rightarrow> exn + cell" where
  "key_field df r name =
     (if 1 < count_list (columns df) name then Inl Unmodelled else field df r name)"

text \<open>Lines 72 to 77: one filter, applied when its query is truthy.\<close>

definition apply_filter ::
  "(pystr \<Rightarrow> pystr) \<Rightarrow> frame \<Rightarrow> pystr \<Rightarrow> pystr option \<Rightarrow> bool list \<Rightarrow> exn + bool list" where
  "apply_filter lw df col query keep =
     (if \<not> truthy (of_optional query) then Inr keep
      else
        case key_column df col of
          Inl e \<Rightarrow> Inl e
        | Inr cells \<Rightarrow>
            (case str_contains (normalize_text lw (of_optional query))
                    (map (normalize_text lw) cells) of
               Inl e \<Rightarrow> Inl e
             | Inr hits \<Rightarrow> Inr (map2 (\<and>) keep hits)))"

text \<open>Lines 96 to 101: the candidate list, one entry per remaining row.\<close>

fun matches_list :: "frame \<Rightarrow> (nat \<Rightarrow> cell) list \<Rightarrow> exn + (cell \<times> cell) list" where
  "matches_list df [] = Inr []"
| "matches_list df (r # rs) =
     (case key_field df r CSV_FRAKMT_COL of
        Inl e \<Rightarrow> Inl e
      | Inr i \<Rightarrow>
          (case key_field df r CSV_KOMMUNE_COL of
             Inl e \<Rightarrow> Inl e
           | Inr k \<Rightarrow>
               (case matches_list df rs of
                  Inl e \<Rightarrow> Inl e
                | Inr ms \<Rightarrow> Inr ((i, k) # ms))))"

fun join :: "pystr \<Rightarrow> pystr list \<Rightarrow> pystr" where
  "join sep [] = []"
| "join sep [x] = x"
| "join sep (x # y # ys) = x @ sep @ join sep (y # ys)"

definition detail_line :: "cell \<times> cell \<Rightarrow> pystr" where
  "detail_line m =
     ascii ''- ID: '' @ py_str (fst m) @ ascii '' ('' @ py_str (snd m) @ ascii '')''"

definition count_message :: "nat \<Rightarrow> pystr" where
  "count_message n =
     ascii ''Fandt '' @ str_nat n @ ascii '' mulige bassiner. Pr'' @ [230]
       @ ascii ''ciser venligst.''"

definition multiple_message :: "nat \<Rightarrow> (cell \<times> cell) list \<Rightarrow> pystr" where
  "multiple_message n ms =
     (if n \<le> 15 then count_message n @ [10] @ join [10] (map detail_line ms)
      else count_message n)"

text \<open>Lines 70 to 115: the search in the loaded table.\<close>

definition find_in_table ::
  "(pystr \<Rightarrow> pystr) \<Rightarrow> frame \<Rightarrow> pystr option \<Rightarrow> pystr option \<Rightarrow> exn + outcome" where
  "find_in_table lw df kommune_query basin_id_query =
     (case apply_filter lw df CSV_KOMMUNE_COL kommune_query
             (replicate (length (rows df)) True) of
        Inl e \<Rightarrow> Inl e
      | Inr keep1 \<Rightarrow>
          (case apply_filter lw df CSV_FRAKMT_COL basin_id_query keep1 of
             Inl e \<Rightarrow> Inl e
           | Inr keep \<Rightarrow>
               let results = select (rows df) keep; num_results = length results in
               if num_results = 0 then Inr (NotFound not_found_message)
               else if num_results = 1 then
                 (case key_field df (hd results) CSV_FRAKMT_COL of
                    Inl e \<Rightarrow> Inl e
                  | Inr i \<Rightarrow>
                      (case key_field df (hd results) CSV_KOMMUNE_COL of
                         Inl e \<Rightarrow> Inl e
                       | Inr k \<Rightarrow> Inr (FoundExact i k)))
               else
                 (case matches_list df results of
                    Inl e \<Rightarrow> Inl e
                  | Inr ms \<Rightarrow>
                      Inr (FoundMultiple num_results (multiple_message num_results ms) ms))))"

text \<open>
  The whole function: the result is the returned dictionary or the exception that
  leaves the function, together with the state after the call.
\<close>

definition find_basin_entries_main ::
  "(pystr \<Rightarrow> pystr) \<Rightarrow> world \<Rightarrow> real \<Rightarrow> state \<Rightarrow> pystr option \<Rightarrow> pystr option
     \<Rightarrow> (exn + outcome) \<times> state" where
  "find_basin_entries_main lw w now st kommune_query basin_id_query =
     (if \<not> truthy (of_optional kommune_query) \<and> \<not> truthy (of_optional basin_id_query)
        then (Inr (NoQuery no_query_message), st)
      else
        case load_data w now st of
          (None, st') \<Rightarrow> (Inr (Error error_message), st')
        | (Some a, st') \<Rightarrow>
            (find_in_table lw (heap st' ! a) kommune_query basin_id_query, st'))"

section \<open>The identity filter of the spatial tools\<close>

definition KOMMUNE :: pystr where
  "KOMMUNE = ascii ''Kommune''"

definition NEW_FID :: pystr where
  "NEW_FID = ascii ''New_FID''"

definition FRAKMT :: pystr where
  "FRAKMT = ascii ''Frakmt''"

definition STEDFAESTELSE :: pystr where
  "STEDFAESTELSE = ascii ''Stedfaestelse''"


text \<open>
  \<open>str_lower\<close> is one element of \<^verbatim>\<open>Series.str.lower()\<close> (an element that is not a string
  becomes a missing value), \<open>eq_str\<close> one element of \<^verbatim>\<open>series == s\<close> for a string
  \<open>s\<close> (a missing value and an integer are not equal to it; a column of dates is
  not compared here), \<open>py_str\<close> one element of \<^verbatim>\<open>series.astype(str)\<close>.
\<close>

definition str_lower :: "(pystr \<Rightarrow> pystr) \<Rightarrow> cell \<Rightarrow> cell" where
  "str_lower lw c = (case c of Str s \<Rightarrow> Str (lw s) | _ \<Rightarrow> NaN)"

definition eq_str :: "cell \<Rightarrow> pystr \<Rightarrow> bool" where
  "eq_str c s = (case c of Str t \<Rightarrow> t = s | _ \<Rightarrow> False)"

text \<open>
  The municipality filter that every tool applies first:
  \<^verbatim>\<open>gdf[gdf["Kommune"].str.lower() == kommune.lower()]\<close>. The column \<^verbatim>\<open>Kommune\<close> is
  taken to be a column of text (of strings and missing values).
\<close>

definition kommune_filter :: "(pystr \<Rightarrow> pystr) \<Rightarrow> frame \<Rightarrow> pystr \<Rightarrow> exn + frame" where
  "kommune_filter lw df kommune =
     (case column df KOMMUNE of
        Inl e \<Rightarrow> Inl e
      | Inr cells \<Rightarrow>
          Inr (df\<lparr>rows := select (rows df)
                 (map (\<lambda>c. eq_str (str_lower lw c) (lw kommune)) cells)\<rparr>))"

text \<open>
  The filter of \<^verbatim>\<open>check_natura2000.py\<close> (lines 24 to 28), which
  \<^verbatim>\<open>check_vp3_streams.py\<close>, \<^verbatim>\<open>check_protected_nature.py\<close> and
  \<^verbatim>\<open>check_species_bilag_iv.py\<close> repeat word for word.
\<close>

definition identity_hit :: "pystr \<Rightarrow> cell \<times> cell \<times> cell \<Rightarrow> bool" where
  "identity_hit ident_str t =
     (case t of (fid, frakmt, sted) \<Rightarrow>
        py_str fid = ident_str \<or> eq_str frakmt ident_str \<or> eq_str sted ident_str)"

definition identity_filter :: "frame \<Rightarrow> pystr \<Rightarrow> exn + frame" where
  "identity_filter basin_gdf ident_str =
     (case column basin_gdf NEW_FID of
        Inl e \<Rightarrow> Inl e
      | Inr fid \<Rightarrow>
          (case column basin_gdf FRAKMT of
             Inl e \<Rightarrow> Inl e
           | Inr frakmt \<Rightarrow>
               (case column basin_gdf STEDFAESTELSE of
                  Inl e \<Rightarrow> Inl e
                | Inr sted \<Rightarrow>
                    Inr (basin_gdf\<lparr>rows := select (rows basin_gdf)
                           (map (identity_hit ident_str) (zip fid (zip frakmt sted)))\<rparr>))))"

text \<open>
  \<^verbatim>\<open>generate_map.find_best_basin_match\<close>: the columns are tried in turn, and the first
  one in which \<^verbatim>\<open>str.contains\<close> finds the lowered, stripped identifier gives the
  selection; the empty frame when none does.
\<close>

fun best_match_loop :: "(pystr \<Rightarrow> pystr) \<Rightarrow> frame \<Rightarrow> pystr \<Rightarrow> pystr list \<Rightarrow> exn + frame" where
  "best_match_loop lw df ident [] = Inr \<lparr>columns = [], rows = []\<rparr>"
| "best_match_loop lw df ident (col # cols) =
     (case column df col of
        Inl e \<Rightarrow> Inl e
      | Inr cells \<Rightarrow>
          (case str_contains ident (map (\<lambda>c. lw (py_str c)) cells) of
             Inl e \<Rightarrow> Inl e
           | Inr hits \<Rightarrow>
               if select (rows df) hits \<noteq> []
                 then Inr (df\<lparr>rows := select (rows df) hits\<rparr>)
                 else best_match_loop lw df ident cols))"

definition find_best_basin_match :: "(pystr \<Rightarrow> pystr) \<Rightarrow> frame \<Rightarrow> pystr \<Rightarrow> exn + frame" where
  "find_best_basin_match lw df ident =
     best_match_loop lw df (strip (lw ident)) [NEW_FID, FRAKMT, STEDFAESTELSE]"

section \<open>The attribute lookup (\<^verbatim>\<open>get_basin_attributes.get_basin_attributes_main\<close>)\<close>


















section \<open>Concrete registries and worlds\<close>

text \<open>
  The registries of the scenarios: a frame with the two key columns and one row per
  entry (municipality, identifier), a world in which the file reads as a given frame
  under both encodings, and the world without the file.
\<close>

definition koege :: pystr where
  "koege = ascii ''K'' @ [248] @ ascii ''ge''"

definition registry_frame :: "(pystr \<times> pystr) list \<Rightarrow> frame" where
  "registry_frame entries =
     \<lparr>columns = [ascii ''Kommune'', ascii ''Frakmt''],
      rows = map (\<lambda>e. mk_row [Str (fst e), Str (snd e)]) entries\<rparr>"

definition world_with :: "frame \<Rightarrow> world" where
  "world_with df =
     \<lparr>file_exists = True, read_csv = (\<lambda>enc. Inr df), fill_repeated = (\<lambda>f. Inr f)\<rparr>"

definition absent_world :: world where
  "absent_world =
     \<lparr>file_exists = False, read_csv = (\<lambda>enc. Inl FileNotFoundError),
      fill_repeated = (\<lambda>f. Inr f)\<rparr>"

definition scenario_a :: frame where
  "scenario_a = registry_frame [(koege, ascii ''20-0 40/0513 Venstre'')]"

definition loaded_state :: state where
  "loaded_state = snd (load_data (world_with scenario_a) 0 initial_state)"

text \<open>
  A registry with the identifiers \<^verbatim>\<open>xa\<close>, \<^verbatim>\<open>ya\<close> and \<^verbatim>\<open>a$z\<close> in one municipality; the
  identifier of scenario A; a registry whose only row has two empty key cells; a
  file whose header has the byte 133 after \<^verbatim>\<open>Kommune\<close>, as it reads under each
  encoding; a file without the identifier column; a file whose latin-1 header has
  \<^verbatim>\<open>Kommune\<close> twice once its names are stripped; the frame that a caller leaves when
  it empties its snapshot. The states named here are the states after the calls
  written in their definitions.
\<close>

definition anchor_registry :: frame where
  "anchor_registry = registry_frame
     [(koege, ascii ''xa''), (koege, ascii ''ya''), (koege, [97, 36, 122])]"

definition anchor_candidates :: "(cell \<times> cell) list" where
  "anchor_candidates = [(Str (ascii ''xa''), Str koege), (Str (ascii ''ya''), Str koege)]"

definition anchor_message :: pystr where
  "anchor_message =
     ascii ''Fandt 2 mulige bassiner. Pr'' @ [230] @ ascii ''ciser venligst.'' @ [10]
       @ ascii ''- ID: xa (K'' @ [248] @ ascii ''ge)'' @ [10]
       @ ascii ''- ID: ya (K'' @ [248] @ ascii ''ge)''"

definition identifier_a :: pystr where
  "identifier_a = ascii ''20-0 40/0513 Venstre''"

definition state_a :: state where
  "state_a = snd (find_basin_entries_main lower_latin1 (world_with scenario_a) 0 initial_state
                    (Some (ascii ''k'' @ [248] @ ascii ''ge'')) None)"

definition blank_registry :: frame where
  "blank_registry =
     \<lparr>columns = [ascii ''Kommune'', ascii ''Frakmt''], rows = [mk_row [NaN, NaN]]\<rparr>"

definition state_blank :: state where
  "state_blank = snd (find_basin_entries_main lower_latin1 (world_with blank_registry) 0
                        initial_state (Some (ascii '' '')) None)"




definition twice_frame :: "encoding \<Rightarrow> frame" where
  "twice_frame enc =
     \<lparr>columns = [ascii ''Kommune'' @ [case enc of Cp1252 \<Rightarrow> 8230 | Latin1 \<Rightarrow> 133],
                 ascii ''Kommune'' @ [case enc of Cp1252 \<Rightarrow> 8230 | Latin1 \<Rightarrow> 133, 32],
                 ascii ''Frakmt''],
      rows = [mk_row [Str koege, Str koege, Str (ascii ''A1'')]]\<rparr>"

definition twice_world :: world where
  "twice_world =
     \<lparr>file_exists = True, read_csv = (\<lambda>enc. Inr (twice_frame enc)),
      fill_repeated = (\<lambda>f. Inr f)\<rparr>"

definition wiped :: frame where
  "wiped = \<lparr>columns = [], rows = []\<rparr>"

definition state_second :: state where
  "state_second =
     snd (load_data absent_world 100 (loaded_state\<lparr>heap := (heap loaded_state)[1 := wiped]\<rparr>))"

text \<open>
  A layer of two basins of one municipality whose identifiers differ by a leading
  digit, and a layer in which two basins of the municipality carry the same
  identifier. \<open>selected_fids\<close> reads the \<^verbatim>\<open>New_FID\<close> cells of a selection.
\<close>

definition koege_layer :: frame where
  "koege_layer =
     \<lparr>columns = [ascii ''Kommune'', ascii ''New_FID'', ascii ''Frakmt'', ascii ''Stedfaestelse''],
      rows = [mk_row [Str koege, Num 1, Str (ascii ''20-0 40/0513 Venstre''), Str (ascii ''S1'')],
              mk_row [Str koege, Num 2, Str (ascii ''120-0 40/0513 Venstre''), Str (ascii ''S2'')]]\<rparr>"

definition selected_fids :: "exn + frame \<Rightarrow> exn + cell list" where
  "selected_fids res = (case res of Inl e \<Rightarrow> Inl e | Inr sel \<Rightarrow> column sel NEW_FID)"


section \<open>Rows that pass the filters\<close>

text \<open>
  What the filters of the resolver mean for one row. \<open>compiles\<close>: a truthy query
  normalizes to a pattern of the fragment that compiles. \<open>query_hit\<close>: the cell
  passes the filter of the query (every cell passes an absent or empty query).
  \<open>matches_filters\<close>: the row passes the municipality filter and the identifier
  filter. \<open>entry_of\<close> is the pair of key cells of a row, \<open>classify\<close> the dictionary
  built from the remaining rows.
\<close>

definition compiles :: "(pystr \<Rightarrow> pystr) \<Rightarrow> pystr option \<Rightarrow> bool" where
  "compiles lw q =
     (if truthy (of_optional q)
      then (case re_compile (normalize_text lw (of_optional q)) of
              Pattern p \<Rightarrow> True | PatternError \<Rightarrow> False | Beyond \<Rightarrow> False)
      else True)"

definition query_hit :: "(pystr \<Rightarrow> pystr) \<Rightarrow> pystr option \<Rightarrow> cell \<Rightarrow> bool" where
  "query_hit lw q c =
     (if truthy (of_optional q)
      then (case re_compile (normalize_text lw (of_optional q)) of
              Pattern p \<Rightarrow> re_search p (normalize_text lw c)
            | PatternError \<Rightarrow> False | Beyond \<Rightarrow> False)
      else True)"

definition cell_of :: "frame \<Rightarrow> (nat \<Rightarrow> cell) \<Rightarrow> pystr \<Rightarrow> cell" where
  "cell_of df r name = (case index_of name (columns df) of None \<Rightarrow> NaN | Some i \<Rightarrow> r i)"

definition matches_filters ::
  "(pystr \<Rightarrow> pystr) \<Rightarrow> frame \<Rightarrow> pystr option \<Rightarrow> pystr option \<Rightarrow> (nat \<Rightarrow> cell) \<Rightarrow> bool" where
  "matches_filters lw df kq iq r =
     (query_hit lw kq (cell_of df r CSV_KOMMUNE_COL)
      \<and> query_hit lw iq (cell_of df r CSV_FRAKMT_COL))"

definition entry_of :: "frame \<Rightarrow> (nat \<Rightarrow> cell) \<Rightarrow> cell \<times> cell" where
  "entry_of df r = (cell_of df r CSV_FRAKMT_COL, cell_of df r CSV_KOMMUNE_COL)"

definition classify :: "frame \<Rightarrow> (nat \<Rightarrow> cell) list \<Rightarrow> outcome" where
  "classify df sel =
     (if sel = [] then NotFound not_found_message
      else if length sel = 1
        then FoundExact (fst (entry_of df (hd sel))) (snd (entry_of df (hd sel)))
      else FoundMultiple (length sel) (multiple_message (length sel) (map (entry_of df) sel))
             (map (entry_of df) sel))"


text \<open>
  The filters as the specification words them. \<open>literal_query\<close>: the query is absent or
  empty, or its normalized form has no special character. \<open>contains_query\<close>: the query
  is absent or empty, or the normalized cell contains the normalized query as a
  substring. \<open>substring_filters\<close>: both key cells of the row contain their query.
\<close>

definition literal_query :: "(pystr \<Rightarrow> pystr) \<Rightarrow> pystr option \<Rightarrow> bool" where
  "literal_query lw q =
     (if truthy (of_optional q) then plain (normalize_text lw (of_optional q)) else True)"

definition contains_query :: "(pystr \<Rightarrow> pystr) \<Rightarrow> pystr option \<Rightarrow> cell \<Rightarrow> bool" where
  "contains_query lw q c =
     (if truthy (of_optional q)
      then sublist (normalize_text lw (of_optional q)) (normalize_text lw c)
      else True)"

definition substring_filters ::
  "(pystr \<Rightarrow> pystr) \<Rightarrow> frame \<Rightarrow> pystr option \<Rightarrow> pystr option \<Rightarrow> (nat \<Rightarrow> cell) \<Rightarrow> bool" where
  "substring_filters lw df kq iq r =
     (contains_query lw kq (cell_of df r CSV_KOMMUNE_COL)
      \<and> contains_query lw iq (cell_of df r CSV_FRAKMT_COL))"

text \<open>
  \<open>key_at\<close>: the name is a column of the frame, once, at position \<open>i\<close>. \<open>keyed\<close>: the
  frame has each of the two key columns once. \<open>cache_keyed\<close>: the cached frame, when
  there is one, has.
\<close>

definition key_at :: "frame \<Rightarrow> pystr \<Rightarrow> nat \<Rightarrow> bool" where
  "key_at df name i = (index_of name (columns df) = Some i \<and> count_list (columns df) name = 1)"

definition keyed :: "frame \<Rightarrow> bool" where
  "keyed df =
     (count_list (columns df) CSV_KOMMUNE_COL = 1 \<and> count_list (columns df) CSV_FRAKMT_COL = 1)"

definition cache_keyed :: "state \<Rightarrow> bool" where
  "cache_keyed st = (case cache_df st of None \<Rightarrow> True | Some c \<Rightarrow> keyed (heap st ! c))"

text \<open>
  \<open>stale\<close>: the cache does not answer at time \<open>now\<close> (it is empty or too old).
  \<open>missing_key_column\<close>: a frame as read lacks a key column once its names are stripped.
\<close>

definition stale :: "real \<Rightarrow> state \<Rightarrow> bool" where
  "stale now st =
     (case cache_df st of None \<Rightarrow> True | Some c \<Rightarrow> \<not> now - load_time st < CACHE_DURATION)"

definition missing_key_column :: "frame \<Rightarrow> bool" where
  "missing_key_column raw =
     (\<not> (CSV_KOMMUNE_COL \<in> set (map strip (columns raw))
         \<and> CSV_FRAKMT_COL \<in> set (map strip (columns raw))))"

section \<open>Evaluation\<close>

lemmas eval_defs =
  find_basin_entries_main_def load_data_def reload_def initial_state_def
  attempt_def prepare_def store_and_copy_def log_def fillna_column_def fillna_cell_def
  strip_def isspace_def CSV_KOMMUNE_COL_def CSV_FRAKMT_COL_def CACHE_DURATION_def
  find_in_table_def apply_filter_def key_column_def key_field_def column_def field_def
  select_def mk_row_def
  str_contains_def re_compile_def re_search_def special_def to_atom_def normalize_text_def
  lower_latin1_def lower_cp_def replace.simps(2) Let_def
  registry_frame_def world_with_def absent_world_def koege_def

section \<open>Patterns without special characters\<close>

lemma match_here_literal: "match_here (map Lit p) s b \<longleftrightarrow> prefix p s"
proof (induction p arbitrary: s b)
  case Nil
  then show ?case by simp
next
  case (Cons a p)
  then show ?case by (cases s) auto
qed

lemma search_from_literal: "search_from (map Lit p) s b \<longleftrightarrow> sublist p s"
proof (induction s arbitrary: b)
  case Nil
  then show ?case by (cases p) auto
next
  case (Cons c s)
  then show ?case by (simp add: match_here_literal sublist_Cons_right)
qed

lemma re_search_literal: "re_search (map Lit p) s \<longleftrightarrow> sublist p s"
  by (simp add: re_search_def search_from_literal)

lemma plain_to_atom: "plain p \<Longrightarrow> map to_atom p = map Lit p"
  by (induction p) (auto simp: plain_def to_atom_def special_def split: if_splits)

lemma plain_compile: "plain p \<Longrightarrow> re_compile p = Pattern (map Lit p)"
proof -
  assume p: "plain p"
  then have "list_all (\<lambda>c. if special c then c = 46 \<or> c = 94 \<or> c = 36 else True) p"
    by (induction p) (auto simp: plain_def split: if_splits)
  with p show ?thesis by (simp add: re_compile_def plain_to_atom)
qed

lemma sublist_transitive: "sublist a b \<Longrightarrow> sublist b c \<Longrightarrow> sublist a c"
proof -
  assume "sublist a b" and "sublist b c"
  then obtain p q u v where "b = p @ a @ q" "c = u @ b @ v"
    by (auto simp: sublist_def)
  then have "c = (u @ p) @ a @ (q @ v)" by simp
  then show ?thesis unfolding sublist_def by blast
qed

lemma select_map: "select rs (map P rs) = filter P rs"
  by (induction rs) (auto simp: select_def)

lemma map2_and_map: "map2 (\<and>) (map P rs) (map Q rs) = map (\<lambda>r. P r \<and> Q r) rs"
  by (induction rs) auto

lemma map2_and_True: "map2 (\<and>) (replicate (length rs) True) (map P rs) = map P rs"
  by (induction rs) auto

lemma filter_singleton_mono:
  "filter P xs = [r] \<Longrightarrow> Q r \<Longrightarrow> (\<And>x. x \<in> set xs \<Longrightarrow> Q x \<Longrightarrow> P x) \<Longrightarrow> filter Q xs = [r]"
proof (induction xs)
  case Nil
  then show ?case by simp
next
  case (Cons x xs)
  show ?case
  proof (cases "P x")
    case True
    with Cons.prems(1) have x: "x = r" and rest: "filter P xs = []" by auto
    have "filter Q xs = []"
      using rest Cons.prems(3) by (auto simp: filter_empty_conv)
    with x Cons.prems(2) show ?thesis by simp
  next
    case False
    with Cons.prems(1) have "filter P xs = [r]" by simp
    moreover have "\<not> Q x" using False Cons.prems(3) by auto
    ultimately show ?thesis using Cons.IH Cons.prems by auto
  qed
qed

section \<open>Loads that return a snapshot\<close>

lemma load_data_hit:
  "cache_df st = Some c \<Longrightarrow> now - load_time st < CACHE_DURATION \<Longrightarrow>
     load_data w now st = (Some (length (heap st)), st\<lparr>heap := heap st @ [heap st ! c]\<rparr>)"
  by (simp add: load_data_def)

lemma load_data_stale: "stale now st \<Longrightarrow> load_data w now st = reload w now st"
  by (auto simp: load_data_def stale_def split: option.splits)

lemma reload_Some:
  assumes "reload w now st = (Some a, st')"
  shows "\<exists>df. heap st' = heap st @ [df, df] \<and> cache_df st' = Some (length (heap st))
           \<and> a = Suc (length (heap st)) \<and> load_time st' = now"
  using assms
  by (auto simp: reload_def store_and_copy_def log_def Let_def split: if_splits sum.splits)

lemma load_data_Some:
  assumes wf: "wf_state st" and ld: "load_data w now st = (Some a, st')"
  shows "\<exists>c. cache_df st' = Some c \<and> c < a \<and> Suc a = length (heap st')
           \<and> heap st' ! a = heap st' ! c"
proof (cases "stale now st")
  case True
  with ld have "reload w now st = (Some a, st')" by (simp add: load_data_stale)
  from reload_Some [OF this] show ?thesis by (auto simp: nth_append)
next
  case False
  then obtain c where c: "cache_df st = Some c" "now - load_time st < CACHE_DURATION"
    by (auto simp: stale_def split: option.splits)
  with wf have "c < length (heap st)" by (simp add: wf_state_def)
  with ld c show ?thesis by (auto simp: load_data_hit nth_append)
qed

section \<open>The search, row by row\<close>

lemma map2_and_keep:
  "length keep = length rs \<Longrightarrow> map2 (\<and>) keep (map (\<lambda>r. True) rs) = keep"
  by (induction keep rs rule: list_induct2) auto

lemma apply_filter_eval:
  assumes "key_at df col i" and "compiles lw q"
    and "length keep = length (rows df)"
  shows "apply_filter lw df col q keep
           = Inr (map2 (\<and>) keep (map (\<lambda>r. query_hit lw q (cell_of df r col)) (rows df)))"
proof (cases "truthy (of_optional q)")
  case False
  then show ?thesis
    using assms(3) by (simp add: apply_filter_def query_hit_def map2_and_keep)
next
  case True
  with assms(2) obtain p where p: "re_compile (normalize_text lw (of_optional q)) = Pattern p"
    by (auto simp: compiles_def split: compiled.splits)
  show ?thesis
    using True assms(1) p
    by (simp add: apply_filter_def key_column_def column_def key_at_def str_contains_def
          query_hit_def cell_of_def comp_def)
qed

lemma matches_list_eval:
  assumes "key_at df CSV_KOMMUNE_COL iK"
    and "key_at df CSV_FRAKMT_COL iF"
  shows "matches_list df rs = Inr (map (entry_of df) rs)"
  using assms
  by (induction rs) (auto simp: key_field_def field_def key_at_def entry_of_def cell_of_def)

lemma find_in_table_eval:
  assumes iK: "key_at df CSV_KOMMUNE_COL iK"
    and iF: "key_at df CSV_FRAKMT_COL iF"
    and ck: "compiles lw kq" and ci: "compiles lw iq"
  shows "find_in_table lw df kq iq
           = Inr (classify df (filter (matches_filters lw df kq iq) (rows df)))"
proof -
  let ?P = "\<lambda>r. query_hit lw kq (cell_of df r CSV_KOMMUNE_COL)"
  let ?Q = "\<lambda>r. query_hit lw iq (cell_of df r CSV_FRAKMT_COL)"
  have k1: "apply_filter lw df CSV_KOMMUNE_COL kq (replicate (length (rows df)) True)
              = Inr (map ?P (rows df))"
    using apply_filter_eval [OF iK ck, of "replicate (length (rows df)) True"]
    by (simp add: map2_and_True)
  have k2: "apply_filter lw df CSV_FRAKMT_COL iq (map ?P (rows df))
              = Inr (map (\<lambda>r. ?P r \<and> ?Q r) (rows df))"
    using apply_filter_eval [OF iF ci, of "map ?P (rows df)"]
    by (simp add: map2_and_map)
  have sel: "select (rows df) (map (\<lambda>r. ?P r \<and> ?Q r) (rows df))
               = filter (matches_filters lw df kq iq) (rows df)"
    by (simp add: select_map matches_filters_def [abs_def])
  have fld: "\<And>r. key_field df r CSV_FRAKMT_COL = Inr (fst (entry_of df r))"
            "\<And>r. key_field df r CSV_KOMMUNE_COL = Inr (snd (entry_of df r))"
    using iK iF by (simp_all add: key_field_def field_def key_at_def entry_of_def cell_of_def)
  show ?thesis
    by (simp add: find_in_table_def k1 k2 sel Let_def fld matches_list_eval [OF iK iF]
        classify_def)
qed

lemma index_of_count: "index_of x xs = Some i \<Longrightarrow> 0 < count_list xs x"
  by (induction xs arbitrary: i) (auto split: if_splits)

lemma key_field_at: "key_field df r name = Inr v \<Longrightarrow> \<exists>i. key_at df name i"
proof -
  assume a: "key_field df r name = Inr v"
  then obtain i where i: "index_of name (columns df) = Some i"
    and le: "\<not> 1 < count_list (columns df) name"
    by (auto simp: key_field_def field_def split: if_splits option.splits)
  from index_of_count [OF i] le have "count_list (columns df) name = 1" by simp
  with i show ?thesis by (auto simp: key_at_def)
qed

lemma apply_filter_Inr:
  assumes "apply_filter lw df col q keep = Inr keep'"
  shows "compiles lw q"
  using assms
  by (auto simp: apply_filter_def compiles_def str_contains_def
           split: if_splits sum.splits compiled.splits)

lemma find_in_table_found:
  assumes "find_in_table lw df kq iq = Inr out" and "\<And>m. out \<noteq> NotFound m"
  shows "\<exists>iK iF. key_at df CSV_KOMMUNE_COL iK
          \<and> key_at df CSV_FRAKMT_COL iF
          \<and> compiles lw kq \<and> compiles lw iq"
proof -
  from assms(1) obtain k1 k2 where
    a1: "apply_filter lw df CSV_KOMMUNE_COL kq (replicate (length (rows df)) True) = Inr k1"
    and a2: "apply_filter lw df CSV_FRAKMT_COL iq k1 = Inr k2"
    by (auto simp: find_in_table_def split: sum.splits)
  have c: "compiles lw kq" "compiles lw iq"
    using a1 a2 by (auto dest: apply_filter_Inr)
  let ?res = "select (rows df) k2"
  from assms(1) assms(2) [of not_found_message] have ne: "?res \<noteq> []"
    by (auto simp: find_in_table_def a1 a2 Let_def)
  then obtain r rs where res: "?res = r # rs" by (cases ?res) auto
  have "\<exists>i k. key_field df r CSV_FRAKMT_COL = Inr i \<and> key_field df r CSV_KOMMUNE_COL = Inr k"
    using assms(1) res
    by (auto simp: find_in_table_def a1 a2 Let_def split: if_splits sum.splits)
  then obtain i k where f: "key_field df r CSV_FRAKMT_COL = Inr i"
    "key_field df r CSV_KOMMUNE_COL = Inr k"
    by blast
  from key_field_at [OF f(1)] key_field_at [OF f(2)]
  obtain iK iF where "key_at df CSV_KOMMUNE_COL iK" "key_at df CSV_FRAKMT_COL iF"
    by blast
  with c show ?thesis by blast
qed

lemma main_found:
  assumes "find_basin_entries_main lw w now st kq iq = (Inr out, st')"
    and "\<And>m. out \<noteq> NoQuery m" and "\<And>m. out \<noteq> Error m"
  shows "\<exists>a. load_data w now st = (Some a, st')
           \<and> find_in_table lw (heap st' ! a) kq iq = Inr out"
  using assms(1) assms(2) [of no_query_message] assms(3) [of error_message]
  by (auto simp: find_basin_entries_main_def split: if_splits prod.splits option.splits)

lemma classify_exact:
  assumes "classify df sel = FoundExact i k"
  shows "\<exists>r. sel = [r] \<and> entry_of df r = (i, k)"
proof -
  from assms have "sel \<noteq> []" "length sel = 1"
    by (auto simp: classify_def split: if_splits)
  then obtain r where "sel = [r]" by (cases sel) auto
  with assms show ?thesis by (auto simp: classify_def)
qed

lemma classify_multiple:
  assumes "classify df sel = FoundMultiple n msg ms"
  shows "ms = map (entry_of df) sel \<and> n = length ms \<and> 1 < n \<and> msg = multiple_message n ms"
proof -
  from assms have "sel \<noteq> []" "length sel \<noteq> 1"
    by (auto simp: classify_def split: if_splits)
  moreover from this have "1 < length sel" by (cases sel) auto
  ultimately show ?thesis using assms by (auto simp: classify_def)
qed

lemma normalize_empty: "normalize_text lw (Str []) = []"
  by (simp add: normalize_text_def)

lemma plain_query_hit:
  assumes "plain (normalize_text lw (Str s))"
  shows "query_hit lw (Some s) c
           \<longleftrightarrow> s = [] \<or> sublist (normalize_text lw (Str s)) (normalize_text lw c)"
  using assms by (auto simp: query_hit_def plain_compile re_search_literal)

lemma literal_compiles: "literal_query lw q \<Longrightarrow> compiles lw q"
  by (auto simp: literal_query_def compiles_def plain_compile split: if_splits)

lemma literal_hit: "literal_query lw q \<Longrightarrow> query_hit lw q c = contains_query lw q c"
  by (auto simp: literal_query_def query_hit_def contains_query_def plain_compile
        re_search_literal split: if_splits)

lemma literal_filters:
  assumes "literal_query lw kq" and "literal_query lw iq"
  shows "matches_filters lw df kq iq r = substring_filters lw df kq iq r"
  using assms by (simp add: matches_filters_def substring_filters_def literal_hit)

lemma plain_literal: "plain (normalize_text lw (Str s)) \<Longrightarrow> literal_query lw (Some s)"
  by (simp add: literal_query_def)

lemma contains_self: "contains_query lw (Some s) (Str s)"
  by (simp add: contains_query_def)

lemma contains_requery:
  assumes "contains_query lw q (Str s)" and "contains_query lw (Some s) c"
  shows "contains_query lw q c"
proof (cases "truthy (of_optional q)")
  case False
  then show ?thesis by (simp add: contains_query_def)
next
  case True
  with assms(1) have a: "sublist (normalize_text lw (of_optional q)) (normalize_text lw (Str s))"
    by (simp add: contains_query_def)
  have b: "sublist (normalize_text lw (Str s)) (normalize_text lw c)"
    using assms(2) by (cases "s = []") (simp_all add: contains_query_def normalize_empty)
  from sublist_transitive [OF a b] True show ?thesis
    by (simp add: contains_query_def)
qed

lemma find_in_table_literal:
  assumes "key_at df CSV_KOMMUNE_COL iK"
    and "key_at df CSV_FRAKMT_COL iF"
    and lk: "literal_query lw kq" and li: "literal_query lw iq"
  shows "find_in_table lw df kq iq
           = Inr (classify df (filter (substring_filters lw df kq iq) (rows df)))"
proof -
  have "filter (matches_filters lw df kq iq) (rows df)
          = filter (substring_filters lw df kq iq) (rows df)"
    by (rule filter_cong) (simp_all add: literal_filters [OF lk li])
  then show ?thesis
    using find_in_table_eval [OF assms(1,2) literal_compiles [OF lk] literal_compiles [OF li]]
    by simp
qed

lemma requery_table:
  assumes first: "find_in_table lw df kq iq = Inr (FoundExact (Str si) (Str sk))"
    and lk: "literal_query lw kq" and li: "literal_query lw iq"
    and pi: "plain (normalize_text lw (Str si))"
    and pk: "plain (normalize_text lw (Str sk))"
  shows "find_in_table lw df (Some sk) (Some si) = Inr (FoundExact (Str si) (Str sk))"
proof -
  from find_in_table_found [OF first] obtain iK iF where
    ix: "key_at df CSV_KOMMUNE_COL iK"
        "key_at df CSV_FRAKMT_COL iF"
    by auto
  from first have "classify df (filter (substring_filters lw df kq iq) (rows df))
                     = FoundExact (Str si) (Str sk)"
    by (simp add: find_in_table_literal [OF ix lk li])
  from classify_exact [OF this] obtain r where
    sel: "filter (substring_filters lw df kq iq) (rows df) = [r]"
    and ent: "entry_of df r = (Str si, Str sk)"
    by blast
  from ent have cells: "cell_of df r CSV_FRAKMT_COL = Str si"
    "cell_of df r CSV_KOMMUNE_COL = Str sk"
    by (simp_all add: entry_of_def)
  have "r \<in> set (filter (substring_filters lw df kq iq) (rows df))" by (simp add: sel)
  then have r: "substring_filters lw df kq iq r" by simp
  have self: "substring_filters lw df (Some sk) (Some si) r"
    by (simp add: substring_filters_def cells contains_self)
  have conv: "substring_filters lw df kq iq x"
    if "substring_filters lw df (Some sk) (Some si) x" for x
    using that r
    by (auto simp: substring_filters_def cells intro: contains_requery)
  have "filter (substring_filters lw df (Some sk) (Some si)) (rows df) = [r]"
    using sel self conv
    by (intro filter_singleton_mono [where P = "substring_filters lw df kq iq"
          and Q = "substring_filters lw df (Some sk) (Some si)"]) auto
  then show ?thesis
    by (simp add: find_in_table_literal [OF ix plain_literal [OF pk] plain_literal [OF pi]]
        classify_def ent)
qed

section \<open>Absent and empty queries\<close>

lemma apply_filter_empty:
  "apply_filter lw df c (Some []) keep = apply_filter lw df c None keep"
  by (simp add: apply_filter_def)

lemma find_in_table_empty_kommune:
  "find_in_table lw df (Some []) q = find_in_table lw df None q"
  by (simp add: find_in_table_def apply_filter_empty)

lemma find_in_table_empty_id:
  "find_in_table lw df q (Some []) = find_in_table lw df q None"
  by (simp add: find_in_table_def apply_filter_empty cong: sum.case_cong)

text \<open>
  C9. When each query is absent or the empty string, the function returns
  \<^verbatim>\<open>no_query\<close> and leaves the state as it was: the cache is not consulted and the
  file system is not touched, whatever the world (so also when the registry file is
  missing). An empty string beside another query filters nothing: the call is the one
  with that query absent.
\<close>

theorem no_query_without_load:
  assumes "kq = None \<or> kq = Some []" and "iq = None \<or> iq = Some []"
  shows "find_basin_entries_main lw w now st kq iq = (Inr (NoQuery no_query_message), st)
    \<and> find_basin_entries_main lw w now st (Some []) q
        = find_basin_entries_main lw w now st None q
    \<and> find_basin_entries_main lw w now st q (Some [])
        = find_basin_entries_main lw w now st q None"
proof -
  have "\<not> truthy (of_optional kq)" "\<not> truthy (of_optional iq)"
    using assms by auto
  then show ?thesis
    by (simp add: find_basin_entries_main_def find_in_table_empty_kommune
        find_in_table_empty_id cong: prod.case_cong option.case_cong)
qed

theorem no_query_without_load_witness:
  "find_basin_entries_main lower_latin1 absent_world 0 initial_state None (Some [])
     = (Inr (NoQuery no_query_message), initial_state)"
  using no_query_without_load [of None "Some []" lower_latin1 absent_world 0 initial_state None]
  by simp

section \<open>Queries with regular-expression syntax\<close>

text \<open>
  C2. The claim is that the function returns a dictionary for every pair of queries,
  special characters included. The query \<^verbatim>\<open>(\<close> on the registry of scenario A: the
  pattern does not compile, and \<^verbatim>\<open>re.error\<close> leaves the function.
\<close>

theorem special_character_query_raises:
  "fst (find_basin_entries_main lower_latin1 (world_with scenario_a) 0 initial_state
          None (Some (ascii ''(''))) = Inl RegexError"
  by (simp add: eval_defs scenario_a_def)

text \<open>
  When the loaded table has each of the two key columns once, queries that compile
  (so queries whose normalized forms have no special character) do give a
  dictionary, and every dictionary carries one of the five statuses.
\<close>

lemma index_of_member: "x \<in> set xs \<Longrightarrow> \<exists>i. index_of x xs = Some i"
  by (induction xs) auto

lemma key_at_once: "count_list (columns df) name = 1 \<Longrightarrow> \<exists>i. key_at df name i"
proof -
  assume a: "count_list (columns df) name = 1"
  have "name \<in> set (columns df)"
  proof (rule ccontr)
    assume "name \<notin> set (columns df)"
    then have "count_list (columns df) name = 0" by simp
    with a show False by simp
  qed
  from index_of_member [OF this] a show ?thesis by (auto simp: key_at_def)
qed

lemma status_cases:
  "status out \<in> {ascii ''no_query'', ascii ''error'', ascii ''not_found'',
                  ascii ''found_exact'', ascii ''found_multiple''}"
  by (cases out) simp_all

lemma compiling_queries_table:
  assumes "keyed df" and "compiles lw kq" and "compiles lw iq"
  shows "\<exists>out. find_in_table lw df kq iq = Inr out"
proof -
  from assms(1) have "count_list (columns df) CSV_KOMMUNE_COL = 1"
    "count_list (columns df) CSV_FRAKMT_COL = 1"
    by (simp_all add: keyed_def)
  from key_at_once [OF this(1)] key_at_once [OF this(2)]
  obtain iK iF where "key_at df CSV_KOMMUNE_COL iK" "key_at df CSV_FRAKMT_COL iF"
    by blast
  from find_in_table_eval [OF this assms(2,3)] show ?thesis by blast
qed

lemma compiling_queries_return:
  assumes "compiles lw kq" and "compiles lw iq"
    and loaded: "\<And>a st'. load_data w now st = (Some a, st') \<Longrightarrow> keyed (heap st' ! a)"
  shows "\<exists>out. fst (find_basin_entries_main lw w now st kq iq) = Inr out"
proof (cases "\<not> truthy (of_optional kq) \<and> \<not> truthy (of_optional iq)")
  case True
  then show ?thesis by (simp add: find_basin_entries_main_def)
next
  case False
  obtain res st' where ld: "load_data w now st = (res, st')" by (cases "load_data w now st")
  show ?thesis
  proof (cases res)
    case None
    with False ld show ?thesis by (simp add: find_basin_entries_main_def)
  next
    case (Some a)
    with ld have "keyed (heap st' ! a)" by (auto intro: loaded)
    from compiling_queries_table [OF this assms(1,2)] False ld Some show ?thesis
      by (auto simp: find_basin_entries_main_def)
  qed
qed

text \<open>
  C3. The claim is that every returned row has an identifier whose normalized form
  contains the normalized query as a literal substring. The query \<^verbatim>\<open>40.0513\<close> on the
  registry of scenario A: the dot matches the slash, the row is returned, and its
  normalized identifier does not contain the normalized query.
\<close>

theorem dot_query_matches_other_characters:
  "fst (find_basin_entries_main lower_latin1 (world_with scenario_a) 0 initial_state
          None (Some (ascii ''40.0513'')))
     = Inr (FoundExact (Str identifier_a) (Str koege))
   \<and> \<not> sublist (normalize_text lower_latin1 (Str (ascii ''40.0513'')))
              (normalize_text lower_latin1 (Str identifier_a))"
  by (simp add: eval_defs scenario_a_def identifier_a_def sublist_code)

text \<open>
  For an identifier query whose normalized form has no special character, the
  identifier of every returned row does contain it.
\<close>

lemma literal_identifier_query:
  assumes res: "find_in_table lw df kq (Some q) = Inr out"
    and q: "q \<noteq> []" and pl: "plain (normalize_text lw (Str q))"
  shows "(\<forall>i k. out = FoundExact i k
            \<longrightarrow> sublist (normalize_text lw (Str q)) (normalize_text lw i))
       \<and> (\<forall>n m ms. out = FoundMultiple n m ms
            \<longrightarrow> list_all (\<lambda>e. sublist (normalize_text lw (Str q)) (normalize_text lw (fst e))) ms)"
proof (cases "\<exists>m. out = NotFound m")
  case True
  then show ?thesis by auto
next
  case False
  then have nf: "\<And>m. out \<noteq> NotFound m" by blast
  from find_in_table_found [OF res nf] obtain iK iF where
    ix: "key_at df CSV_KOMMUNE_COL iK"
        "key_at df CSV_FRAKMT_COL iF"
    and cq: "compiles lw kq" "compiles lw (Some q)"
    by auto
  let ?sel = "filter (matches_filters lw df kq (Some q)) (rows df)"
  from res have out: "out = classify df ?sel"
    by (simp add: find_in_table_eval [OF ix cq])
  have hit: "sublist (normalize_text lw (Str q)) (normalize_text lw (fst (entry_of df r)))"
    if "r \<in> set ?sel" for r
    using that q pl by (simp add: matches_filters_def entry_of_def plain_query_hit)
  show ?thesis
  proof (intro conjI allI impI)
    fix i k assume "out = FoundExact i k"
    with out obtain r where "?sel = [r]" "entry_of df r = (i, k)"
      using classify_exact [of df ?sel i k] by auto
    with hit [of r] show "sublist (normalize_text lw (Str q)) (normalize_text lw i)"
      by simp
  next
    fix n m ms assume "out = FoundMultiple n m ms"
    with out have "ms = map (entry_of df) ?sel"
      using classify_multiple [of df ?sel n m ms] by auto
    with hit show "list_all (\<lambda>e. sublist (normalize_text lw (Str q))
                                  (normalize_text lw (fst e))) ms"
      by (auto simp: list_all_iff)
  qed
qed

section \<open>Candidate lists\<close>

text \<open>
  C5. The claim is that, when the function returns \<^verbatim>\<open>found_multiple\<close>, every row of the
  table that matches the filters is in the candidate list. The query \<^verbatim>\<open>a$\<close> on the
  registry with the identifiers \<^verbatim>\<open>xa\<close>, \<^verbatim>\<open>ya\<close> and \<^verbatim>\<open>a$z\<close>: the dollar is read as the
  end of the string, the function returns \<^verbatim>\<open>found_multiple\<close> with the two candidates
  \<^verbatim>\<open>xa\<close> and \<^verbatim>\<open>ya\<close> (and the message that lists the two), and the third row, whose
  normalized identifier contains the normalized query, is not among them.
\<close>

theorem anchored_query_omits_matching_row:
  "fst (find_basin_entries_main lower_latin1 (world_with anchor_registry) 0 initial_state
          None (Some [97, 36]))
     = Inr (FoundMultiple 2 anchor_message anchor_candidates)
   \<and> contains_query lower_latin1 (Some [97, 36]) (Str [97, 36, 122])
   \<and> (Str [97, 36, 122], Str koege) \<notin> set anchor_candidates"
  by (simp add: eval_defs anchor_registry_def anchor_candidates_def anchor_message_def
        multiple_message_def count_message_def detail_line_def str_nat.simps
        contains_query_def sublist_code numeral_2_eq_2)

text \<open>
  For queries whose normalized forms have no special character the claim holds (on a
  table that has each of the two key columns once, as every table with a result): the
  candidate list has one entry (identifier cell, municipality cell) for every row of
  the loaded table whose key cells contain the queries, in the order of the table; the
  count is the length of the list and is more than one; up to fifteen candidates the
  message is the count sentence followed by one line per candidate, beyond fifteen it
  is the count sentence alone.
\<close>

lemma literal_found_multiple:
  assumes lk: "literal_query lw kq" and li: "literal_query lw iq"
    and res: "find_basin_entries_main lw w now st kq iq
                = (Inr (FoundMultiple n msg ms), st')"
  shows "\<exists>a. load_data w now st = (Some a, st')
           \<and> ms = map (entry_of (heap st' ! a))
                    (filter (substring_filters lw (heap st' ! a) kq iq) (rows (heap st' ! a)))
           \<and> n = length ms \<and> 1 < n
           \<and> msg = ascii ''Fandt '' @ str_nat n @ ascii '' mulige bassiner. Pr'' @ [230]
                     @ ascii ''ciser venligst.''
                     @ (if n \<le> 15
                        then [10] @ join [10]
                               (map (\<lambda>m. ascii ''- ID: '' @ py_str (fst m) @ ascii '' (''
                                           @ py_str (snd m) @ ascii '')'') ms)
                        else [])"
proof -
  from main_found [OF res] obtain a where
    ld: "load_data w now st = (Some a, st')"
    and tab: "find_in_table lw (heap st' ! a) kq iq = Inr (FoundMultiple n msg ms)"
    by auto
  let ?df = "heap st' ! a"
  from find_in_table_found [OF tab] obtain iK iF where
    ix: "key_at ?df CSV_KOMMUNE_COL iK"
        "key_at ?df CSV_FRAKMT_COL iF"
    by auto
  from tab have "classify ?df (filter (substring_filters lw ?df kq iq) (rows ?df))
                   = FoundMultiple n msg ms"
    by (simp add: find_in_table_literal [OF ix lk li])
  from classify_multiple [OF this] ld show ?thesis
    by (auto simp: multiple_message_def count_message_def detail_line_def [abs_def])
qed

section \<open>Asking again with the exact values\<close>

text \<open>
  C4, as amended. Let the queries of a call have no special character of the
  regular-expression syntax in their normalized forms, and let the call return
  \<^verbatim>\<open>found_exact\<close> from a table that has each of the two key columns once. Then the
  two returned values are the stored key cells of the only row of the loaded table
  whose key cells contain the queries. If they are strings that are not both empty
  and whose normalized forms have no special character either, then asking again
  with them, on the same cached table, gives \<^verbatim>\<open>found_exact\<close> with the same two values.
\<close>

theorem exact_requery_stable:
  assumes wf: "wf_state st"
    and lk: "literal_query lw kq" and li: "literal_query lw iq"
    and first: "find_basin_entries_main lw w now st kq iq = (Inr (FoundExact i k), st')"
    and once: "cache_keyed st'"
  shows "\<exists>a r. load_data w now st = (Some a, st')
           \<and> filter (substring_filters lw (heap st' ! a) kq iq) (rows (heap st' ! a)) = [r]
           \<and> entry_of (heap st' ! a) r = (i, k)
           \<and> (\<forall>si sk now2 w2.
                 i = Str si \<and> k = Str sk \<and> (si \<noteq> [] \<or> sk \<noteq> [])
                 \<and> plain (normalize_text lw (Str si)) \<and> plain (normalize_text lw (Str sk))
                 \<and> now2 - load_time st' < CACHE_DURATION
                 \<longrightarrow> fst (find_basin_entries_main lw w2 now2 st' (Some sk) (Some si))
                       = Inr (FoundExact i k))"
proof -
  from main_found [OF first] obtain a where
    ld: "load_data w now st = (Some a, st')"
    and tab: "find_in_table lw (heap st' ! a) kq iq = Inr (FoundExact i k)"
    by auto
  let ?df = "heap st' ! a"
  from find_in_table_found [OF tab] obtain iK iF where
    ix: "key_at ?df CSV_KOMMUNE_COL iK"
        "key_at ?df CSV_FRAKMT_COL iF"
    by auto
  from tab have "classify ?df (filter (substring_filters lw ?df kq iq) (rows ?df))
                   = FoundExact i k"
    by (simp add: find_in_table_literal [OF ix lk li])
  from classify_exact [OF this] obtain r where
    sel: "filter (substring_filters lw ?df kq iq) (rows ?df) = [r]"
    and ent: "entry_of ?df r = (i, k)"
    by blast
  from load_data_Some [OF wf ld] obtain c where
    c: "cache_df st' = Some c" "heap st' ! a = heap st' ! c"
    by blast
  have again: "fst (find_basin_entries_main lw w2 now2 st' (Some sk) (Some si))
                 = Inr (FoundExact i k)"
    if h: "i = Str si" "k = Str sk" "si \<noteq> [] \<or> sk \<noteq> []"
      "plain (normalize_text lw (Str si))" "plain (normalize_text lw (Str sk))"
      "now2 - load_time st' < CACHE_DURATION"
    for si sk now2 w2
  proof -
    have hit: "load_data w2 now2 st'
                 = (Some (length (heap st')), st'\<lparr>heap := heap st' @ [heap st' ! c]\<rparr>)"
      by (rule load_data_hit [OF c(1) h(6)])
    have "find_in_table lw ?df (Some sk) (Some si) = Inr (FoundExact (Str si) (Str sk))"
      using tab h lk li by (intro requery_table [of lw ?df kq iq]) simp_all
    then show ?thesis
      using h(1,2,3) by (auto simp: find_basin_entries_main_def hit c(2))
  qed
  show ?thesis
    using ld sel ent again by blast
qed

theorem exact_requery_stable_witness:
  "literal_query lower_latin1 (Some (ascii ''k'' @ [248] @ ascii ''ge''))
   \<and> literal_query lower_latin1 None
   \<and> find_basin_entries_main lower_latin1 (world_with scenario_a) 0 initial_state
       (Some (ascii ''k'' @ [248] @ ascii ''ge'')) None
     = (Inr (FoundExact (Str identifier_a) (Str koege)), state_a)
   \<and> cache_keyed state_a
   \<and> fst (find_basin_entries_main lower_latin1 absent_world 100 state_a
            (Some koege) (Some identifier_a))
       = Inr (FoundExact (Str identifier_a) (Str koege))"
proof -
  have wf: "wf_state initial_state"
    by (simp add: wf_state_def initial_state_def)
  have l: "literal_query lower_latin1 (Some (ascii ''k'' @ [248] @ ascii ''ge''))"
    "literal_query lower_latin1 None"
    by (simp_all add: literal_query_def plain_def eval_defs)
  have e: "find_basin_entries_main lower_latin1 (world_with scenario_a) 0 initial_state
       (Some (ascii ''k'' @ [248] @ ascii ''ge'')) None
     = (Inr (FoundExact (Str identifier_a) (Str koege)), state_a)"
    unfolding state_a_def prod_eq_iff
    by (simp add: eval_defs scenario_a_def identifier_a_def)
  have o: "cache_keyed state_a"
    unfolding state_a_def
    by (simp add: eval_defs scenario_a_def cache_keyed_def keyed_def)
  have p: "plain (normalize_text lower_latin1 (Str identifier_a))"
    "plain (normalize_text lower_latin1 (Str koege))"
    by (simp_all add: eval_defs identifier_a_def plain_def)
  have t: "100 - load_time state_a < CACHE_DURATION"
    unfolding state_a_def by (simp add: eval_defs scenario_a_def)
  have n: "identifier_a \<noteq> []" by (simp add: identifier_a_def)
  from exact_requery_stable [OF wf l e o] obtain a r where
    "\<forall>si sk now2 w2.
        Str identifier_a = Str si \<and> Str koege = Str sk \<and> (si \<noteq> [] \<or> sk \<noteq> [])
        \<and> plain (normalize_text lower_latin1 (Str si))
        \<and> plain (normalize_text lower_latin1 (Str sk))
        \<and> now2 - load_time state_a < CACHE_DURATION
        \<longrightarrow> fst (find_basin_entries_main lower_latin1 w2 now2 state_a (Some sk) (Some si))
              = Inr (FoundExact (Str identifier_a) (Str koege))"
    by blast
  then have "fst (find_basin_entries_main lower_latin1 absent_world 100 state_a
            (Some koege) (Some identifier_a))
       = Inr (FoundExact (Str identifier_a) (Str koege))"
    using p t n by blast
  with e l o show ?thesis by simp
qed

text \<open>
  The claim without the amendment fails on a registry whose only row has both key
  cells empty: a blank municipality query finds the row, and the two returned values
  are empty strings, which the function takes for absent queries.
\<close>

theorem blank_row_requery_counterexample:
  "fst (find_basin_entries_main lower_latin1 (world_with blank_registry) 0 initial_state
          (Some (ascii '' '')) None) = Inr (FoundExact (Str []) (Str []))
   \<and> fst (find_basin_entries_main lower_latin1 (world_with blank_registry) 1 state_blank
          (Some []) (Some [])) = Inr (NoQuery no_query_message)"
  by (simp add: eval_defs blank_registry_def state_blank_def)

section \<open>The cache\<close>

text \<open>
  C8. After a load that returned a snapshot, a second load within the cache duration
  returns another snapshot: the two snapshots and the cached table are three distinct
  objects with equal content, also when the caller has overwritten the first snapshot
  (with any frame \<open>g\<close>) in between; the cached table and the first snapshot are not
  changed by the second call, nor by overwriting the second snapshot.
\<close>

theorem snapshots_are_defensive_copies:
  assumes wf: "wf_state st"
    and first: "load_data w1 t1 st = (Some a1, st1)"
    and fresh: "t2 - load_time st1 < CACHE_DURATION"
    and second: "load_data w2 t2 (st1\<lparr>heap := (heap st1)[a1 := g]\<rparr>) = (Some a2, st2)"
  shows "\<exists>c. cache_df st1 = Some c \<and> cache_df st2 = Some c
           \<and> a1 \<noteq> c \<and> a2 \<noteq> c \<and> a1 \<noteq> a2
           \<and> heap st1 ! a1 = heap st1 ! c
           \<and> heap st2 ! a2 = heap st1 ! a1
           \<and> heap st2 ! c = heap st1 ! c
           \<and> heap st2 ! a1 = g
           \<and> (\<forall>h. (heap st2)[a2 := h] ! c = heap st2 ! c
                   \<and> (heap st2)[a2 := h] ! a1 = heap st2 ! a1)"
proof -
  from load_data_Some [OF wf first] obtain c where
    c: "cache_df st1 = Some c" "c < a1" "Suc a1 = length (heap st1)"
       "heap st1 ! a1 = heap st1 ! c"
    by blast
  let ?st = "st1\<lparr>heap := (heap st1)[a1 := g]\<rparr>"
  have "load_data w2 t2 ?st
          = (Some (length (heap ?st)), ?st\<lparr>heap := heap ?st @ [heap ?st ! c]\<rparr>)"
    using c(1) fresh by (intro load_data_hit) simp_all
  with second have a2: "a2 = length (heap st1)"
    and st2: "st2 = ?st\<lparr>heap := (heap st1)[a1 := g] @ [(heap st1)[a1 := g] ! c]\<rparr>"
    by simp_all
  show ?thesis
    using c a2 by (intro exI[of _ c]) (auto simp: st2 nth_append nth_list_update)
qed

theorem snapshots_are_defensive_copies_witness:
  "wf_state initial_state
   \<and> load_data (world_with scenario_a) 0 initial_state = (Some 1, loaded_state)
   \<and> 100 - load_time loaded_state < CACHE_DURATION
   \<and> load_data absent_world 100 (loaded_state\<lparr>heap := (heap loaded_state)[1 := wiped]\<rparr>)
       = (Some 2, state_second)
   \<and> cache_df loaded_state = Some 0 \<and> cache_df state_second = Some 0
   \<and> heap state_second ! 2 = heap loaded_state ! 1
   \<and> heap state_second ! 0 = heap loaded_state ! 0
   \<and> heap state_second ! 1 = wiped"
proof -
  have wf: "wf_state initial_state"
    by (simp add: wf_state_def initial_state_def)
  have first: "load_data (world_with scenario_a) 0 initial_state = (Some 1, loaded_state)"
    unfolding loaded_state_def prod_eq_iff by (simp add: eval_defs scenario_a_def)
  have fresh: "100 - load_time loaded_state < CACHE_DURATION"
    unfolding loaded_state_def by (simp add: eval_defs scenario_a_def)
  have c: "cache_df loaded_state = Some 0"
    unfolding loaded_state_def by (simp add: eval_defs scenario_a_def)
  have second: "load_data absent_world 100 (loaded_state\<lparr>heap := (heap loaded_state)[1 := wiped]\<rparr>)
       = (Some 2, state_second)"
    unfolding state_second_def prod_eq_iff
    by (simp add: load_data_def c fresh) (simp add: loaded_state_def eval_defs scenario_a_def)
  from snapshots_are_defensive_copies [OF wf first fresh second] c wf first fresh second
  show ?thesis by auto
qed




text \<open>
  A file whose header has the byte 133 after \<^verbatim>\<open>Kommune\<close> in two columns, the second
  with a space behind it: under cp1252 the municipality column is missing; under
  latin-1 the stripped header has \<^verbatim>\<open>Kommune\<close> twice, the assignment of line 42 raises
  \<^verbatim>\<open>ValueError\<close>, the load fails and the cached table is cleared.
\<close>

lemma repeated_kommune_fails:
  "missing_key_column (twice_frame Cp1252)
   \<and> attempt twice_world Latin1 fallback_message = Inl (ValueError length_message)
   \<and> fst (load_data twice_world 0 initial_state) = None
   \<and> cache_df (snd (load_data twice_world 0 initial_state)) = None
   \<and> trace (snd (load_data twice_world 0 initial_state))
       = [PathExists, ReadCsv Cp1252, ReadCsv Latin1]"
  by (simp add: eval_defs twice_world_def twice_frame_def missing_key_column_def)

section \<open>Failed loads\<close>

text \<open>
  C7. The claim is that every failed load leaves the cache empty. The registry of
  scenario A is loaded at time 0; an hour later the file is gone. The load fails,
  and the cache still holds the table of the first load.
\<close>

theorem absent_file_keeps_stale_table:
  "fst (load_data absent_world 3600 loaded_state) = None
   \<and> cache_df (snd (load_data absent_world 3600 loaded_state)) = Some 0
   \<and> cache_df loaded_state = Some 0"
  by (simp add: eval_defs scenario_a_def loaded_state_def)

section \<open>The identity filter\<close>

text \<open>
  C1. The claim is that every spatial tool selects a feature of the municipality exactly
  when one of its three identifier fields equals the identifier. Two basins of one
  municipality whose identifiers differ by a leading digit: for the identifier of the first,
  the filter of the analysis tools selects the first basin only, and
  \<^verbatim>\<open>find_best_basin_match\<close> of the map tool selects both, because the identifier of
  the second contains that of the first.
\<close>

theorem best_match_selects_by_containment:
  "kommune_filter lower_latin1 koege_layer koege = Inr koege_layer
   \<and> selected_fids (find_best_basin_match lower_latin1 koege_layer identifier_a)
       = Inr [Num 1, Num 2]
   \<and> selected_fids (identity_filter koege_layer identifier_a) = Inr [Num 1]"
  by (simp add: eval_defs identifier_a_def koege_layer_def selected_fids_def
        find_best_basin_match_def identity_filter_def identity_hit_def
        eq_str_def str_lower_def kommune_filter_def NEW_FID_def FRAKMT_def STEDFAESTELSE_def
        KOMMUNE_def str_int_def str_nat.simps)

text \<open>
  The filter of the analysis tools is the exact one, on a layer that has the three
  identifier columns.
\<close>

lemma zip3_map:
  "zip (map f rs) (zip (map g rs) (map h rs)) = map (\<lambda>r. (f r, g r, h r)) rs"
  by (induction rs) auto

lemma eq_str_iff: "eq_str c s \<longleftrightarrow> c = Str s"
  by (cases c) (auto simp: eq_str_def)

lemma identity_filter_exact:
  assumes "index_of NEW_FID (columns df) = Some a" and "index_of FRAKMT (columns df) = Some b"
    and "index_of STEDFAESTELSE (columns df) = Some c"
  shows "identity_filter df ident
           = Inr (df\<lparr>rows := filter (\<lambda>r. py_str (r a) = ident \<or> r b = Str ident
                                          \<or> r c = Str ident) (rows df)\<rparr>)"
proof -
  have "select (rows df)
          (map (identity_hit ident)
             (zip (map (\<lambda>r. r a) (rows df))
                (zip (map (\<lambda>r. r b) (rows df)) (map (\<lambda>r. r c) (rows df)))))
        = filter (\<lambda>r. py_str (r a) = ident \<or> r b = Str ident \<or> r c = Str ident) (rows df)"
    by (simp add: zip3_map select_map comp_def identity_hit_def eq_str_iff)
  then show ?thesis
    using assms by (simp add: identity_filter_def column_def)
qed

section \<open>The attribute lookup\<close>






end
